theory Spec2Isabelle
  imports Complex_Main "HOL-Library.Word"
begin

section \<open>CI-V protocol engine of \<open>iu2frl_civ.Device\<close>\<close>

text \<open>
  A shallow embedding of the private helpers of class \<open>Device\<close> in
  \<open>src/iu2frl_civ/iu2frl_civ.py\<close>. Python names are kept, without the leading
  underscore (\<open>_send_command\<close> is \<open>send_command\<close>). A \<open>bytes\<close> object is a list
  of 8-bit words, a Python \<open>int\<close> is an \<open>int\<close>, a \<open>str\<close> is a \<open>string\<close>, and
  every exception the code can raise is a value of \<open>error\<close>.
\<close>

subsection \<open>Data\<close>

type_synonym byte = "8 word"
type_synonym bytes = "byte list"

datatype error =
    ValueError
  | IndexError
  | UnboundLocalError
  | CivCommandException bytes
  | CivTimeoutException int

text \<open>
  \<open>CivCommandException\<close> carries \<open>error_code\<close>; \<open>CivTimeoutException\<close> carries
  the number \<open>i+1\<close> that the code formats into its message.

  The serial port is the external collaborator. It is modelled by the script of what the
  successive calls of \<open>read_until(expected=b"\xfd")\<close> return (an exhausted script
  returns \<open>b""\<close>, which is what pyserial returns on a read timeout) and by the log of
  the frames written.
\<close>

record serial_port =
  incoming :: "bytes list"
  outgoing :: "bytes list"

definition read_until :: "serial_port \<Rightarrow> bytes \<times> serial_port" where
  "read_until s =
     (case incoming s of
        [] \<Rightarrow> ([], s)
      | r # rs \<Rightarrow> (r, s\<lparr>incoming := rs\<rparr>))"

definition ser_write :: "serial_port \<Rightarrow> bytes \<Rightarrow> serial_port" where
  "ser_write s frame = s\<lparr>outgoing := outgoing s @ [frame]\<rparr>"

record device =
  ser :: serial_port
  read_attempts :: int
  transceiver_address :: bytes
  controller_address :: bytes

subsection \<open>The exchange primitive \<open>_send_command\<close>\<close>

text \<open>
  The local variables \<open>i\<close>, \<open>reply\<close> and \<open>valid_reply\<close> of \<open>_send_command\<close>,
  which the read loop assigns. \<open>l_i\<close> is \<open>None\<close> until the \<open>for\<close> statement binds
  \<open>i\<close>; reading it before that raises \<open>UnboundLocalError\<close>.
\<close>

record locals =
  l_i :: "int option"
  l_reply :: bytes
  l_valid_reply :: bool

datatype flow = Continue locals | Break locals | Raise error

text \<open>\<open>reply[n]\<close>: an index past the end raises \<open>IndexError\<close>.\<close>

definition byte_at :: "bytes \<Rightarrow> nat \<Rightarrow> error + byte" where
  "byte_at bs n = (if n < length bs then Inr (bs ! n) else Inl IndexError)"

text \<open>
  One iteration of \<open>for i in range(self._read_attempts)\<close>, entered with the loop
  variable bound to \<open>k\<close>. The statement \<open>i -= 1\<close> rebinds the local \<open>i\<close> only: the
  \<open>for\<close> statement takes its next value from the range iterator.
\<close>

definition loop_body ::
    "device \<Rightarrow> bytes \<Rightarrow> int \<Rightarrow> locals \<Rightarrow> serial_port \<Rightarrow> flow \<times> serial_port" where
  "loop_body dev command_string k l s =
     (let (r, s') = read_until s;
          l1 = l\<lparr>l_i := Some k, l_reply := r\<rparr>
      in if r = command_string then
           (Continue (l1\<lparr>l_i := Some (k - 1)\<rparr>), s')
         else if length r > 2 then
           (case byte_at r 2 of
              Inl e \<Rightarrow> (Raise e, s')
            | Inr tgt \<Rightarrow>
           (case byte_at r 3 of
              Inl e \<Rightarrow> (Raise e, s')
            | Inr src \<Rightarrow>
           (case byte_at r (length r - 2) of
              Inl e \<Rightarrow> (Raise e, s')
            | Inr code \<Rightarrow>
                let target_controller = [tgt];
                    source_transceiver = [src];
                    reply_code = [code]
                in if target_controller \<noteq> controller_address dev
                      \<or> source_transceiver \<noteq> transceiver_address dev then
                     (Continue (l1\<lparr>l_i := Some (k - 1)\<rparr>), s')
                   else if reply_code = [0xFA] then
                     (Raise (CivCommandException reply_code), s')
                   else
                     (Break (l1\<lparr>l_valid_reply := True\<rparr>), s'))))
         else
           (Continue l1, s'))"

text \<open>The \<open>for\<close> statement over the values of the range that are left.\<close>

fun for_range ::
    "device \<Rightarrow> bytes \<Rightarrow> int list \<Rightarrow> locals \<Rightarrow> serial_port \<Rightarrow> (error + locals) \<times> serial_port" where
  "for_range dev command_string [] l s = (Inr l, s)"
| "for_range dev command_string (k # ks) l s =
     (case loop_body dev command_string k l s of
        (Continue l', s') \<Rightarrow> for_range dev command_string ks l' s'
      | (Break l', s') \<Rightarrow> (Inr l', s')
      | (Raise e, s') \<Rightarrow> (Inl e, s'))"

definition command_string_of :: "device \<Rightarrow> bytes \<Rightarrow> bytes \<Rightarrow> bytes \<Rightarrow> bytes" where
  "command_string_of dev command data preamble =
     preamble @ [0xFE, 0xFE] @ transceiver_address dev @ controller_address dev
       @ command @ data @ [0xFD]"

text \<open>
  \<open>_send_command(command, data, preamble)\<close>. The result is the reply or the exception,
  together with the device, whose serial port has been written to and read from.
  \<open>command\<close> is a \<open>bytes\<close> object here, so only the check of its length can fail.
  \<open>range(n)\<close> is \<open>[0..n - 1]\<close>, empty for \<open>n \<le> 0\<close>. After the loop the message of
  \<open>CivTimeoutException\<close> is built from \<open>i+1\<close>, which needs \<open>i\<close> bound.
\<close>

definition send_command ::
    "device \<Rightarrow> bytes \<Rightarrow> bytes \<Rightarrow> bytes \<Rightarrow> (error + bytes) \<times> device" where
  "send_command dev command data preamble =
     (if length command \<notin> {1, 2, 3, 4} then (Inl ValueError, dev)
      else
        let command_string = command_string_of dev command data preamble;
            s1 = ser_write (ser dev) command_string
        in case for_range dev command_string [0..read_attempts dev - 1]
                  \<lparr>l_i = None, l_reply = [], l_valid_reply = False\<rparr> s1 of
             (Inl e, s2) \<Rightarrow> (Inl e, dev\<lparr>ser := s2\<rparr>)
           | (Inr l, s2) \<Rightarrow>
               if \<not> l_valid_reply l then
                 (case l_i l of
                    None \<Rightarrow> (Inl UnboundLocalError, dev\<lparr>ser := s2\<rparr>)
                  | Some iv \<Rightarrow> (Inl (CivTimeoutException (iv + 1)), dev\<lparr>ser := s2\<rparr>))
               else (Inr (l_reply l), dev\<lparr>ser := s2\<rparr>))"

text \<open>
  How one candidate read is classified by the branches of \<open>loop_body\<close>. A read that is
  \<open>discarded\<close> makes the loop go on: the echo of the frame just sent, a read of at most
  two bytes (a timeout), or a frame of four bytes or more between other stations. A
  \<open>matching\<close> read is not the echo and carries this session's controller as destination
  and its transceiver as source. (A read of exactly three bytes is neither: \<open>reply[3]\<close>
  raises \<open>IndexError\<close>.)
\<close>

definition discarded :: "device \<Rightarrow> bytes \<Rightarrow> bytes \<Rightarrow> bool" where
  "discarded dev command_string r \<longleftrightarrow>
     r = command_string \<or> length r \<le> 2
     \<or> (4 \<le> length r
         \<and> ([r ! 2] \<noteq> controller_address dev \<or> [r ! 3] \<noteq> transceiver_address dev))"

definition matching :: "device \<Rightarrow> bytes \<Rightarrow> bytes \<Rightarrow> bool" where
  "matching dev command_string r \<longleftrightarrow>
     r \<noteq> command_string \<and> 4 \<le> length r
     \<and> [r ! 2] = controller_address dev \<and> [r ! 3] = transceiver_address dev"

text \<open>
  A session used for concrete runs: transceiver \<open>0x94\<close>, controller \<open>0xE0\<close>,
  \<open>attempts = n\<close>, and a port that will return the reads \<open>rs\<close>.
\<close>

definition session :: "int \<Rightarrow> bytes list \<Rightarrow> device" where
  "session n rs =
     \<lparr>ser = \<lparr>incoming = rs, outgoing = []\<rparr>, read_attempts = n,
      transceiver_address = [0x94], controller_address = [0xE0]\<rparr>"

subsection \<open>Strings\<close>

text \<open>\<open>"0123456789ABCDEF"[d]\<close>, the digit that \<open>str\<close> and the format \<open>02X\<close> print.\<close>

definition digit_char :: "nat \<Rightarrow> char" where
  "digit_char d = (if d < 10 then char_of (48 + d) else char_of (55 + d))"

text \<open>
  The value of a digit as \<open>int(s, 16)\<close> and \<open>bytes.fromhex\<close> read it: \<open>0-9\<close>,
  \<open>a-f\<close> and \<open>A-F\<close>.
\<close>

definition hex_value :: "char \<Rightarrow> nat option" where
  "hex_value c =
     (let n = (of_char c :: nat)
      in if 48 \<le> n \<and> n \<le> 57 then Some (n - 48)
         else if 97 \<le> n \<and> n \<le> 102 then Some (n - 87)
         else if 65 \<le> n \<and> n \<le> 70 then Some (n - 55)
         else None)"

definition is_decimal :: "char \<Rightarrow> bool" where
  "is_decimal c \<longleftrightarrow> 48 \<le> (of_char c :: nat) \<and> (of_char c :: nat) \<le> 57"

definition decimal_value :: "string \<Rightarrow> int" where
  "decimal_value s = foldl (\<lambda>a c. 10 * a + (int (of_char c) - 48)) 0 s"

text \<open>\<open>str(v)\<close>: the decimal digits of a non-negative integer, then of any integer.\<close>

function str_digits :: "int \<Rightarrow> string" where
  "str_digits n =
     (if n < 10 then [digit_char (nat n)]
      else str_digits (n div 10) @ [digit_char (nat (n mod 10))])"
  by pat_completeness auto
termination
  by (relation "measure nat") auto

text \<open>The equation of \<open>str_digits\<close> unfolds without end on a variable: it is used by name.\<close>

declare str_digits.simps [simp del]

definition decimal_repr :: "int \<Rightarrow> string" where
  "decimal_repr v = (if v < 0 then CHR ''-'' # str_digits (- v) else str_digits v)"

text \<open>
  CPython refuses to convert between \<open>int\<close> and a decimal \<open>str\<close> of more than
  \<open>sys.int_info.default_max_str_digits\<close> digits, the sign not counted: \<open>str(10**4300)\<close>
  and \<open>int("0" * 4301)\<close> raise \<open>ValueError\<close>. Base 16 has no such limit.
\<close>

definition int_max_str_digits :: nat where
  "int_max_str_digits = 4300"

definition str_int :: "int \<Rightarrow> error + string" where
  "str_int v =
     (if int_max_str_digits < length (str_digits \<bar>v\<bar>) then Inl ValueError
      else Inr (decimal_repr v))"

text \<open>\<open>s.rjust(width, fill)\<close>.\<close>

definition rjust :: "string \<Rightarrow> nat \<Rightarrow> char \<Rightarrow> string" where
  "rjust s width fill = replicate (width - length s) fill @ s"

text \<open>\<open>f"{byte:02X}"\<close> for one element of a \<open>bytes\<close> object.\<close>

definition format_02X :: "byte \<Rightarrow> string" where
  "format_02X b = [digit_char (unat b div 16), digit_char (unat b mod 16)]"

text \<open>
  \<open>int(s)\<close> on the strings that \<open>format_02X\<close> builds, which hold the characters
  \<open>0-9\<close> and \<open>A-F\<close> only: the decimal value when every character is a decimal digit,
  there is one at least and there are no more than the limit allows, \<open>ValueError\<close>
  otherwise. (Python's \<open>int\<close> also takes a sign, blanks around the number and
  underscores between digits; none can occur here.)
\<close>

definition py_int :: "string \<Rightarrow> error + int" where
  "py_int s =
     (if s \<noteq> [] \<and> list_all is_decimal s \<and> length s \<le> int_max_str_digits
      then Inr (decimal_value s) else Inl ValueError)"

text \<open>
  \<open>int(s, 16)\<close> on the strings that \<open>_encode_frequency\<close> builds: \<open>0x\<close> followed by
  two characters that are decimal digits or the minus sign of \<open>str\<close>. After the optional
  prefix every character must be a hexadecimal digit, and there must be one. (A sign is
  accepted by Python before the prefix only.)
\<close>

definition py_int_16 :: "string \<Rightarrow> error + int" where
  "py_int_16 s =
     (let body = (if take 2 s = ''0x'' \<or> take 2 s = ''0X'' then drop 2 s else s)
      in if body \<noteq> [] \<and> list_all (\<lambda>c. hex_value c \<noteq> None) body
         then Inr (int (foldl (\<lambda>a c. 16 * a + the (hex_value c)) 0 body))
         else Inl ValueError)"

text \<open>A list comprehension whose element expression may raise: the first error wins.\<close>

fun sequence_err :: "(error + 'a) list \<Rightarrow> error + 'a list" where
  "sequence_err [] = Inr []"
| "sequence_err (Inl e # _) = Inl e"
| "sequence_err (Inr x # xs) =
     (case sequence_err xs of Inl e \<Rightarrow> Inl e | Inr ys \<Rightarrow> Inr (x # ys))"

text \<open>\<open>bytes(ints)\<close>: every element must be in \<open>range(256)\<close>.\<close>

definition bytes_ctor :: "int list \<Rightarrow> error + bytes" where
  "bytes_ctor vs =
     (if list_all (\<lambda>v. 0 \<le> v \<and> v < 256) vs then Inr (map word_of_int vs) else Inl ValueError)"

subsection \<open>Numeric codecs\<close>

definition decode_frequency :: "bytes \<Rightarrow> error + int" where
  "decode_frequency bcd_bytes =
     (let reversed_bcd = rev bcd_bytes;
          frequency_bcd = concat (map format_02X reversed_bcd)
      in py_int frequency_bcd)"

text \<open>\<open>s[n]\<close> on a string: an index past the end raises \<open>IndexError\<close>.\<close>

definition char_at :: "string \<Rightarrow> nat \<Rightarrow> error + char" where
  "char_at s n = (if n < length s then Inr (s ! n) else Inl IndexError)"

text \<open>\<open>f"0x{s[a]}{s[b]}"\<close>.\<close>

definition hex_literal :: "string \<Rightarrow> nat \<Rightarrow> nat \<Rightarrow> error + string" where
  "hex_literal s a b =
     (case char_at s a of
        Inl e \<Rightarrow> Inl e
      | Inr x \<Rightarrow>
     (case char_at s b of
        Inl e \<Rightarrow> Inl e
      | Inr y \<Rightarrow> Inr (''0x'' @ [x, y])))"

definition encode_frequency :: "int \<Rightarrow> error + bytes" where
  "encode_frequency frequency =
     (case str_int frequency of
        Inl e \<Rightarrow> Inl e
      | Inr digits \<Rightarrow>
          let frequency_str = rjust digits 10 CHR ''0'';
              inverted_freq = rev frequency_str
          in case sequence_err
                    [hex_literal inverted_freq 1 0, hex_literal inverted_freq 3 2,
                     hex_literal inverted_freq 5 4, hex_literal inverted_freq 7 6,
                     hex_literal inverted_freq 9 8] of
               Inl e \<Rightarrow> Inl e
             | Inr hex_list \<Rightarrow>
                 (case sequence_err (map py_int_16 hex_list) of
                    Inl e \<Rightarrow> Inl e
                  | Inr vs \<Rightarrow> bytes_ctor vs))"

text \<open>
  \<open>_bytes_to_int(first_byte, second_byte)\<close>; every caller passes two elements of a
  reply, \<open>reply[6]\<close> and \<open>reply[7]\<close>, so that \<open>int(first_byte)\<close> is the byte's value.
\<close>

definition bytes_to_int :: "byte \<Rightarrow> byte \<Rightarrow> error + int" where
  "bytes_to_int first_byte second_byte =
     (case py_int (format_02X second_byte) of
        Inl e \<Rightarrow> Inl e
      | Inr v \<Rightarrow> Inr (uint first_byte * 100 + v))"

subsection \<open>Piecewise-linear interpolation\<close>





subsection \<open>Construction of a \<open>Device\<close>\<close>

text \<open>
  \<open>bytes.fromhex(s)\<close>: ASCII whitespace is skipped before each pair of hexadecimal
  digits; anything else, also a digit left alone, raises \<open>ValueError\<close>.
\<close>

definition is_space :: "char \<Rightarrow> bool" where
  "is_space c \<longleftrightarrow> (of_char c :: nat) \<in> {9, 10, 11, 12, 13, 32}"

fun fromhex :: "string \<Rightarrow> error + bytes" where
  "fromhex [] = Inr []"
| "fromhex [c] = (if is_space c then Inr [] else Inl ValueError)"
| "fromhex (c # d # cs) =
     (if is_space c then fromhex (d # cs)
      else case (hex_value c, hex_value d) of
             (Some hi, Some lo) \<Rightarrow>
               (case fromhex cs of
                  Inl e \<Rightarrow> Inl e
                | Inr bs \<Rightarrow> Inr (of_nat (16 * hi + lo) # bs))
           | _ \<Rightarrow> Inl ValueError)"

text \<open>
  \<open>Device.__init__(radio_address, ..., controller_address, ..., attempts)\<close>, given the
  serial port that \<open>serial.Serial(...)\<close> opened. Both addresses are of type \<open>str\<close>.
\<close>

definition Device_init :: "string \<Rightarrow> serial_port \<Rightarrow> string \<Rightarrow> int \<Rightarrow> error + device" where
  "Device_init radio_address port controller_addr attempts =
     (if take 2 radio_address = ''0x'' then
        (case fromhex (drop 2 radio_address) of
           Inl e \<Rightarrow> Inl e
         | Inr ta \<Rightarrow>
             if take 2 controller_addr = ''0x'' then
               (case fromhex (drop 2 controller_addr) of
                  Inl e \<Rightarrow> Inl e
                | Inr ca \<Rightarrow>
                    Inr \<lparr>ser = port, read_attempts = attempts,
                         transceiver_address = ta, controller_address = ca\<rparr>)
             else Inl ValueError)
      else Inl ValueError)"

section \<open>Properties of the exchange primitive\<close>

subsection \<open>One iteration\<close>

lemma loop_body_discarded:
  assumes "discarded dev cs r" and "incoming s = r # rest"
  shows "\<exists>l'. loop_body dev cs k l s = (Continue l', s\<lparr>incoming := rest\<rparr>)"
  using assms
  by (auto simp: discarded_def loop_body_def read_until_def byte_at_def Let_def)

lemma loop_body_rejected:
  assumes "matching dev cs r" and "r ! (length r - 2) = 0xFA" and "incoming s = r # rest"
  shows "loop_body dev cs k l s = (Raise (CivCommandException [0xFA]), s\<lparr>incoming := rest\<rparr>)"
  using assms
  by (auto simp: matching_def loop_body_def read_until_def byte_at_def Let_def)

lemma loop_body_short:
  assumes "\<forall>r \<in> set (take 1 (incoming s)). length r \<le> 2" and "2 < length cs"
  shows "loop_body dev cs k l s =
     (Continue (l\<lparr>l_i := Some k, l_reply := (case incoming s of [] \<Rightarrow> [] | r # _ \<Rightarrow> r)\<rparr>),
      s\<lparr>incoming := tl (incoming s)\<rparr>)"
proof (cases "incoming s")
  case Nil
  then have "s\<lparr>incoming := []\<rparr> = s" by (cases s) simp
  with Nil assms show ?thesis
    by (auto simp: loop_body_def read_until_def Let_def)
next
  case (Cons r rs)
  with assms show ?thesis
    by (auto simp: loop_body_def read_until_def Let_def)
qed

subsection \<open>The loop\<close>

lemma for_range_rejected:
  assumes "\<forall>q \<in> set pre. discarded dev cs q"
    and "matching dev cs r" and "r ! (length r - 2) = 0xFA"
    and "incoming s = pre @ r # rest"
    and "length pre < length ks"
  shows "for_range dev cs ks l s = (Inl (CivCommandException [0xFA]), s\<lparr>incoming := rest\<rparr>)"
  using assms
proof (induction pre arbitrary: ks l s)
  case Nil
  then obtain k ks' where ks: "ks = k # ks'" by (cases ks) auto
  from Nil have "incoming s = r # rest" by simp
  from loop_body_rejected [OF Nil(2,3) this]
  show ?case by (simp add: ks)
next
  case (Cons q pre)
  then obtain k ks' where ks: "ks = k # ks'" by (cases ks) auto
  from Cons.prems have q: "discarded dev cs q" and inc: "incoming s = q # (pre @ r # rest)"
    by simp_all
  from loop_body_discarded [OF q inc] obtain l' where
    lb: "loop_body dev cs k l s = (Continue l', s\<lparr>incoming := pre @ r # rest\<rparr>)" by blast
  have "for_range dev cs ks' l' (s\<lparr>incoming := pre @ r # rest\<rparr>)
      = (Inl (CivCommandException [0xFA]), s\<lparr>incoming := pre @ r # rest\<rparr>\<lparr>incoming := rest\<rparr>)"
    using Cons.prems ks by (intro Cons.IH) simp_all
  then show ?case by (simp add: ks lb)
qed

lemma for_range_timeout:
  assumes "\<forall>r \<in> set (take (length ks) (incoming s)). length r \<le> 2" and "2 < length cs"
  shows "\<exists>l'. for_range dev cs ks l s = (Inr l', s\<lparr>incoming := drop (length ks) (incoming s)\<rparr>)
           \<and> l_valid_reply l' = l_valid_reply l
           \<and> l_i l' = (if ks = [] then l_i l else Some (last ks))"
  using assms
proof (induction ks arbitrary: l s)
  case Nil
  then show ?case by simp
next
  case (Cons k ks)
  let ?l1 = "l\<lparr>l_i := Some k, l_reply := (case incoming s of [] \<Rightarrow> [] | r # _ \<Rightarrow> r)\<rparr>"
  let ?s1 = "s\<lparr>incoming := tl (incoming s)\<rparr>"
  have first: "\<forall>r \<in> set (take 1 (incoming s)). length r \<le> 2"
    using Cons.prems(1) by (cases "incoming s") auto
  have lb: "loop_body dev cs k l s = (Continue ?l1, ?s1)"
    by (rule loop_body_short [OF first Cons.prems(2)])
  have rest: "\<forall>r \<in> set (take (length ks) (incoming ?s1)). length r \<le> 2"
    using Cons.prems(1) by (cases "incoming s") auto
  from Cons.IH [OF rest Cons.prems(2), of ?l1] obtain l' where
    l': "for_range dev cs ks ?l1 ?s1 = (Inr l', ?s1\<lparr>incoming := drop (length ks) (incoming ?s1)\<rparr>)"
        "l_valid_reply l' = l_valid_reply ?l1"
        "l_i l' = (if ks = [] then l_i ?l1 else Some (last ks))"
    by blast
  have "?s1\<lparr>incoming := drop (length ks) (incoming ?s1)\<rparr>
        = s\<lparr>incoming := drop (length (k # ks)) (incoming s)\<rparr>"
    by (simp add: drop_Suc)
  with l' lb show ?case by simp
qed

lemma length_command_string: "2 < length (command_string_of dev command data preamble)"
  by (simp add: command_string_of_def)

lemma last_range: "0 < n \<Longrightarrow> last [0..n - 1] = n - 1"
  by (simp add: upto_rec2)

text \<open>
  With a budget of one attempt at least, reads of at most two bytes on every attempt end
  in \<open>CivTimeoutException\<close>, which reports the whole budget; exactly that many reads
  have been taken from the port.
\<close>

lemma send_command_timeout:
  assumes "length command \<in> {1, 2, 3, 4}"
    and "0 < read_attempts dev"
    and "\<forall>r \<in> set (take (nat (read_attempts dev)) (incoming (ser dev))). length r \<le> 2"
  shows "send_command dev command data preamble =
     (Inl (CivTimeoutException (read_attempts dev)),
      dev\<lparr>ser := (ser_write (ser dev) (command_string_of dev command data preamble))
           \<lparr>incoming := drop (nat (read_attempts dev)) (incoming (ser dev))\<rparr>\<rparr>)"
proof -
  let ?cs = "command_string_of dev command data preamble"
  let ?s1 = "ser_write (ser dev) ?cs"
  let ?ks = "[0..read_attempts dev - 1]"
  let ?l0 = "\<lparr>l_i = None, l_reply = [], l_valid_reply = False\<rparr>"
  have a: "\<forall>r \<in> set (take (length ?ks) (incoming ?s1)). length r \<le> 2"
    using assms(3) by (simp add: ser_write_def)
  from for_range_timeout [where l = ?l0 and dev = dev, OF a length_command_string] obtain l' where
    l': "for_range dev ?cs ?ks ?l0 ?s1 = (Inr l', ?s1\<lparr>incoming := drop (length ?ks) (incoming ?s1)\<rparr>)"
      "l_valid_reply l' = l_valid_reply ?l0"
      "l_i l' = (if ?ks = [] then l_i ?l0 else Some (last ?ks))"
    by blast
  have ne: "?ks \<noteq> []" using assms(2) by (simp add: upto_rec1)
  have li: "l_i l' = Some (read_attempts dev - 1)"
    using l'(3) ne last_range [OF assms(2)] by simp
  from l'(1,2) li assms(1) show ?thesis
    by (simp add: send_command_def Let_def ser_write_def)
qed

subsection \<open>Claims about the exchange\<close>

text \<open>
  C1. The claim: a read that is byte-identical to the frame just sent is discarded
  without using up an attempt, so that with a budget of one attempt the echo followed by
  a valid reply makes the call succeed. The code does not do so. On a session with
  \<open>attempts = 1\<close> whose port returns the echo of \<open>FE FE 94 E0 03 FD\<close> and then
  the valid reply \<open>FE FE E0 94 03 00 FD\<close>, the only iteration of the loop reads the
  echo, \<open>i -= 1\<close> sets the local \<open>i\<close> to \<open>-1\<close>, the range is exhausted, and the call
  raises \<open>CivTimeoutException\<close> reporting \<open>0\<close> attempts; the valid reply stays
  unread in the port.
\<close>

theorem echo_uses_up_attempt:
  "send_command
     (session 1 [[0xFE, 0xFE, 0x94, 0xE0, 0x03, 0xFD], [0xFE, 0xFE, 0xE0, 0x94, 0x03, 0x00, 0xFD]])
     [0x03] [] []
   = (Inl (CivTimeoutException 0),
      session 1 [[0xFE, 0xFE, 0x94, 0xE0, 0x03, 0xFD], [0xFE, 0xFE, 0xE0, 0x94, 0x03, 0x00, 0xFD]]
        \<lparr>ser := \<lparr>incoming = [[0xFE, 0xFE, 0xE0, 0x94, 0x03, 0x00, 0xFD]],
                  outgoing = [[0xFE, 0xFE, 0x94, 0xE0, 0x03, 0xFD]]\<rparr>\<rparr>)"
  by (simp add: session_def send_command_def command_string_of_def ser_write_def
      loop_body_def read_until_def byte_at_def)

text \<open>
  C2. The claim: a reply of more than two bytes whose address bytes are not this
  session's pair never satisfies the call and is discarded without using up an attempt.
  The code discards it, and the iteration that read it is spent. On a session with
  \<open>attempts = 1\<close> whose port returns the foreign frame \<open>FE FE E1 94 03 FD\<close>
  (destination \<open>E1\<close>, not the controller \<open>E0\<close>) and then the valid reply
  \<open>FE FE E0 94 03 00 FD\<close>, the call raises \<open>CivTimeoutException\<close> reporting \<open>0\<close>
  attempts and leaves the valid reply unread.
\<close>

theorem foreign_uses_up_attempt:
  "send_command
     (session 1 [[0xFE, 0xFE, 0xE1, 0x94, 0x03, 0xFD], [0xFE, 0xFE, 0xE0, 0x94, 0x03, 0x00, 0xFD]])
     [0x03] [] []
   = (Inl (CivTimeoutException 0),
      session 1 [[0xFE, 0xFE, 0xE1, 0x94, 0x03, 0xFD], [0xFE, 0xFE, 0xE0, 0x94, 0x03, 0x00, 0xFD]]
        \<lparr>ser := \<lparr>incoming = [[0xFE, 0xFE, 0xE0, 0x94, 0x03, 0x00, 0xFD]],
                  outgoing = [[0xFE, 0xFE, 0x94, 0xE0, 0x03, 0xFD]]\<rparr>\<rparr>)"
  by (simp add: session_def send_command_def command_string_of_def ser_write_def
      loop_body_def read_until_def byte_at_def)

text \<open>
  C3. When the reads that the port returns are some discarded ones (echoes, timeouts,
  foreign frames), fewer than the budget, and then a matching reply whose second-to-last
  byte is \<open>0xFA\<close>, the call raises \<open>CivCommandException\<close> carrying the status byte
  \<open>FA\<close>, whatever the budget is, and no read is made after that reply: what followed
  it is still in the port.
\<close>

theorem negative_acknowledge_short_circuits:
  assumes "length command \<in> {1, 2, 3, 4}"
    and "incoming (ser dev) = pre @ r # rest"
    and "\<forall>q \<in> set pre. discarded dev (command_string_of dev command data preamble) q"
    and "int (length pre) < read_attempts dev"
    and "matching dev (command_string_of dev command data preamble) r"
    and "r ! (length r - 2) = 0xFA"
  shows "send_command dev command data preamble =
     (Inl (CivCommandException [0xFA]),
      dev\<lparr>ser := (ser_write (ser dev) (command_string_of dev command data preamble))
           \<lparr>incoming := rest\<rparr>\<rparr>)"
proof -
  let ?cs = "command_string_of dev command data preamble"
  have len: "length pre < length [0..read_attempts dev - 1]"
    using assms(4) by simp
  have inc: "incoming (ser_write (ser dev) ?cs) = pre @ r # rest"
    using assms(2) by (simp add: ser_write_def)
  from for_range_rejected [OF assms(3) assms(5) assms(6) inc len]
  show ?thesis using assms(1) by (simp add: send_command_def Let_def)
qed

text \<open>
  The hypotheses of C3 hold on a session with a budget of three attempts whose port
  returns the echo, a foreign frame, the rejection \<open>FE FE E0 94 FA FD\<close> and one more
  frame: the call is rejected at the third read and the fourth frame is not read.
\<close>

theorem negative_acknowledge_witness:
  "length [0x03 :: byte] \<in> {1, 2, 3, 4}
   \<and> incoming (ser (session 3 [[0xFE, 0xFE, 0x94, 0xE0, 0x03, 0xFD], [0xFE, 0xFE, 0xE1, 0x94, 0x03, 0xFD],
          [0xFE, 0xFE, 0xE0, 0x94, 0xFA, 0xFD], [0xFE, 0xFE, 0xE0, 0x94, 0xFB, 0xFD]]))
       = [[0xFE, 0xFE, 0x94, 0xE0, 0x03, 0xFD], [0xFE, 0xFE, 0xE1, 0x94, 0x03, 0xFD]]
          @ [0xFE, 0xFE, 0xE0, 0x94, 0xFA, 0xFD] # [[0xFE, 0xFE, 0xE0, 0x94, 0xFB, 0xFD]]
   \<and> send_command
       (session 3 [[0xFE, 0xFE, 0x94, 0xE0, 0x03, 0xFD], [0xFE, 0xFE, 0xE1, 0x94, 0x03, 0xFD],
          [0xFE, 0xFE, 0xE0, 0x94, 0xFA, 0xFD], [0xFE, 0xFE, 0xE0, 0x94, 0xFB, 0xFD]])
       [0x03] [] []
     = (Inl (CivCommandException [0xFA]),
        session 3 [[0xFE, 0xFE, 0x94, 0xE0, 0x03, 0xFD], [0xFE, 0xFE, 0xE1, 0x94, 0x03, 0xFD],
          [0xFE, 0xFE, 0xE0, 0x94, 0xFA, 0xFD], [0xFE, 0xFE, 0xE0, 0x94, 0xFB, 0xFD]]
        \<lparr>ser := \<lparr>incoming = [[0xFE, 0xFE, 0xE0, 0x94, 0xFB, 0xFD]],
                  outgoing = [[0xFE, 0xFE, 0x94, 0xE0, 0x03, 0xFD]]\<rparr>\<rparr>)"
proof -
  let ?echo = "[0xFE, 0xFE, 0x94, 0xE0, 0x03, 0xFD] :: bytes"
  let ?foreign = "[0xFE, 0xFE, 0xE1, 0x94, 0x03, 0xFD] :: bytes"
  let ?nak = "[0xFE, 0xFE, 0xE0, 0x94, 0xFA, 0xFD] :: bytes"
  let ?ok = "[0xFE, 0xFE, 0xE0, 0x94, 0xFB, 0xFD] :: bytes"
  let ?dev = "session 3 [?echo, ?foreign, ?nak, ?ok]"
  have cs: "command_string_of ?dev [0x03] [] [] = ?echo"
    by (simp add: command_string_of_def session_def)
  have h1: "length [0x03 :: byte] \<in> {1, 2, 3, 4}" by simp
  have h2: "incoming (ser ?dev) = [?echo, ?foreign] @ ?nak # [?ok]"
    by (simp add: session_def)
  have h3: "\<forall>q \<in> set [?echo, ?foreign]. discarded ?dev (command_string_of ?dev [0x03] [] []) q"
    unfolding cs by (simp add: discarded_def session_def)
  have h4: "int (length [?echo, ?foreign]) < read_attempts ?dev"
    by (simp add: session_def)
  have h5: "matching ?dev (command_string_of ?dev [0x03] [] []) ?nak"
    unfolding cs by (simp add: matching_def session_def)
  have h6: "?nak ! (length ?nak - 2) = 0xFA" by simp
  from negative_acknowledge_short_circuits [OF h1 h2 h3 h4 h5 h6] h1 h2
  show ?thesis unfolding cs by (simp add: ser_write_def session_def)
qed

text \<open>
  C4. The claim: when every attempt reads at most two bytes, the call fails with the
  timeout error, which reports \<open>max_attempts\<close> attempts. For a budget of one attempt
  or more this is \<open>send_command_timeout\<close> above. For \<open>attempts = 0\<close> the range is
  empty, the \<open>for\<close> statement never binds \<open>i\<close>, and building the message of
  \<open>CivTimeoutException\<close> from \<open>i+1\<close> raises \<open>UnboundLocalError\<close> instead.
\<close>

theorem no_attempts_unbound_counter:
  "send_command (session 0 []) [0x03] [] []
   = (Inl UnboundLocalError,
      session 0 [] \<lparr>ser := \<lparr>incoming = [], outgoing = [[0xFE, 0xFE, 0x94, 0xE0, 0x03, 0xFD]]\<rparr>\<rparr>)"
  by (simp add: session_def send_command_def command_string_of_def ser_write_def)


section \<open>Properties of the interpolation\<close>

subsection \<open>The two loops\<close>



subsection \<open>Claims about the interpolation\<close>



section \<open>Properties of the numeric codecs\<close>

subsection \<open>Digits\<close>

lemma of_char_digit_char:
  "d < 16 \<Longrightarrow> (of_char (digit_char d) :: nat) = (if d < 10 then 48 + d else 55 + d)"
  by (simp add: digit_char_def)

lemma is_decimal_digit_char: "d < 16 \<Longrightarrow> is_decimal (digit_char d) \<longleftrightarrow> d < 10"
  by (auto simp: is_decimal_def of_char_digit_char)

lemma hex_value_digit_char: "d < 10 \<Longrightarrow> hex_value (digit_char d) = Some d"
  by (simp add: hex_value_def of_char_digit_char Let_def)

lemma digit_char_of_char: "is_decimal c \<Longrightarrow> digit_char (of_char c - 48) = c"
  by (auto simp: is_decimal_def digit_char_def)

lemma hex_value_decimal: "is_decimal c \<Longrightarrow> hex_value c = Some (of_char c - 48)"
  by (simp add: is_decimal_def hex_value_def Let_def)

lemma decimal_value_snoc:
  "decimal_value (s @ [c]) = 10 * decimal_value s + (int (of_char c) - 48)"
  by (simp add: decimal_value_def)

lemma decimal_value_two:
  "h < 10 \<Longrightarrow> l < 10 \<Longrightarrow> decimal_value [digit_char h, digit_char l] = int (10 * h + l)"
  by (simp add: decimal_value_def of_char_digit_char)

lemma nibbles_bound: "unat (b :: byte) div 16 < 16" "unat (b :: byte) mod 16 < 16"
proof -
  have "unat b < 256" using unsigned_less [of b] by simp
  then show "unat b div 16 < 16" by simp
  show "unat b mod 16 < 16" by simp
qed

subsection \<open>Claims about \<open>_bytes_to_int\<close>\<close>

text \<open>
  C8, as the claim states it: \<open>_bytes_to_int\<close> raises no error for any pair of bytes,
  also when a nibble of the second byte is greater than 9. It does raise: for the second
  byte \<open>0x1A\<close> the format \<open>02X\<close> gives \<open>"1A"\<close>, and \<open>int("1A")\<close> raises
  \<open>ValueError\<close>.
\<close>

theorem bytes_to_int_raises:
  "bytes_to_int 1 0x1A = Inl ValueError"
  by (simp add: bytes_to_int_def format_02X_def digit_char_def py_int_def is_decimal_def)

text \<open>
  C8, amended: \<open>_bytes_to_int\<close> returns the first byte times 100 plus the two nibbles
  of the second byte read as decimal digits when both nibbles are at most 9, and raises
  \<open>ValueError\<close> when one of them is greater than 9.
\<close>

theorem bytes_to_int_value:
  "bytes_to_int first_byte second_byte =
     (if unat second_byte div 16 \<le> 9 \<and> unat second_byte mod 16 \<le> 9
      then Inr (uint first_byte * 100
                + int (10 * (unat second_byte div 16) + unat second_byte mod 16))
      else Inl ValueError)"
proof -
  let ?h = "unat second_byte div 16" and ?l = "unat second_byte mod 16"
  have dec: "list_all is_decimal (format_02X second_byte) \<longleftrightarrow> ?h < 10 \<and> ?l < 10"
    by (simp add: format_02X_def is_decimal_digit_char nibbles_bound)
  show ?thesis
  proof (cases "?h < 10 \<and> ?l < 10")
    case True
    then have "decimal_value (format_02X second_byte) = int (10 * ?h + ?l)"
      unfolding format_02X_def by (intro decimal_value_two) simp_all
    with True dec show ?thesis
      by (simp add: bytes_to_int_def py_int_def format_02X_def int_max_str_digits_def)
  next
    case False
    with dec have "py_int (format_02X second_byte) = Inl ValueError"
      by (simp add: py_int_def)
    with False show ?thesis by (auto simp: bytes_to_int_def)
  qed
qed

text \<open>Both branches of the amended C8, at the bytes \<open>01 23\<close> and \<open>02 3C\<close>.\<close>

theorem bytes_to_int_value_witness:
  "bytes_to_int 1 0x23 = Inr 123 \<and> bytes_to_int 2 0x3C = Inl ValueError"
  using bytes_to_int_value [of 1 "0x23"] bytes_to_int_value [of 2 "0x3C"] by simp

section \<open>Properties of the construction\<close>

text \<open>What the validation does check: the prefix, and two digits give one byte.\<close>

lemma Device_init_prefix_missing:
  "take 2 radio_address \<noteq> ''0x'' \<Longrightarrow>
   Device_init radio_address port controller_addr attempts = Inl ValueError"
  by (simp add: Device_init_def)

lemma fromhex_two_digits:
  "hex_value c = Some h \<Longrightarrow> hex_value d = Some l \<Longrightarrow> fromhex [c, d] = Inr [of_nat (16 * h + l)]"
  by (auto simp: is_space_def hex_value_def Let_def split: if_splits)

text \<open>
  C5. The claim: construction fails with an invalid-address error when what follows
  \<open>0x\<close> is not exactly two hexadecimal digits, so that no device holds an invalid
  address. The code checks the prefix and leaves the rest to \<open>bytes.fromhex\<close>, which
  takes any number of digit pairs: \<open>"0x1234"\<close> is accepted and the device holds the
  two-byte transceiver address \<open>12 34\<close>.
\<close>

theorem device_init_two_byte_address:
  "Device_init ''0x1234'' \<lparr>incoming = [], outgoing = []\<rparr> ''0xE0'' 3 =
     Inr \<lparr>ser = \<lparr>incoming = [], outgoing = []\<rparr>, read_attempts = 3,
          transceiver_address = [0x12, 0x34], controller_address = [0xE0]\<rparr>"
  by (simp add: Device_init_def is_space_def hex_value_def)

section \<open>Properties of the frequency codec\<close>

subsection \<open>Decimal strings\<close>

lemma str_digits_decimal: "list_all is_decimal (str_digits n)"
proof (induction n rule: str_digits.induct)
  case (1 n)
  show ?case
  proof (cases "n < 10")
    case True
    then have "nat n < 10" by simp
    then show ?thesis
      by (subst str_digits.simps) (simp add: True is_decimal_digit_char)
  next
    case False
    have "nat (n mod 10) < 10" by simp
    with False 1 show ?thesis
      by (subst str_digits.simps) (simp add: is_decimal_digit_char)
  qed
qed

lemma decimal_value_str_digits: "0 \<le> n \<Longrightarrow> decimal_value (str_digits n) = n"
proof (induction n rule: str_digits.induct)
  case (1 n)
  show ?case
  proof (cases "n < 10")
    case True
    with "1.prems" have "nat n < 10" by simp
    with True "1.prems" show ?thesis
      by (subst str_digits.simps) (simp add: decimal_value_def of_char_digit_char)
  next
    case False
    with 1 have ih: "decimal_value (str_digits (n div 10)) = n div 10" by simp
    have "nat (n mod 10) < 10" by simp
    then have "(of_char (digit_char (nat (n mod 10))) :: nat) = 48 + nat (n mod 10)"
      by (simp add: of_char_digit_char)
    with False ih show ?thesis
      by (subst str_digits.simps) (simp add: decimal_value_snoc)
  qed
qed

lemma length_str_digits_le:
  "n < 10 ^ k \<Longrightarrow> 0 < k \<Longrightarrow> length (str_digits n) \<le> k"
proof (induction n arbitrary: k rule: str_digits.induct)
  case (1 n)
  show ?case
  proof (cases "n < 10")
    case True
    with "1.prems" show ?thesis by (subst str_digits.simps) simp
  next
    case False
    with "1.prems" obtain j where k: "k = Suc j" by (cases k) auto
    with False "1.prems" have "0 < j" by (cases j) auto
    moreover from "1.prems" k have "n div 10 < 10 ^ j" by simp
    ultimately have "length (str_digits (n div 10)) \<le> j"
      using "1.IH" [OF False] by simp
    with False k show ?thesis by (subst str_digits.simps) simp
  qed
qed


lemma decimal_value_zeros: "decimal_value (replicate m CHR ''0'' @ s) = decimal_value s"
proof -
  have "foldl (\<lambda>a c. 10 * a + (int (of_char c) - 48)) 0 (replicate m CHR ''0'') = 0"
    by (induction m) simp_all
  then show ?thesis by (simp add: decimal_value_def)
qed

subsection \<open>The limit on the number of digits\<close>

lemma below_limit:
  assumes "\<bar>f :: int\<bar> < 10 ^ k" and "k \<le> int_max_str_digits"
  shows "\<bar>f\<bar> < 10 ^ int_max_str_digits"
proof -
  have "(10 :: int) ^ k \<le> 10 ^ int_max_str_digits"
    using assms(2) by (intro power_increasing) simp_all
  with assms(1) show ?thesis by linarith
qed

lemma str_int_ok:
  assumes "\<bar>f\<bar> < 10 ^ int_max_str_digits"
  shows "str_int f = Inr (decimal_repr f)"
proof -
  have "0 < int_max_str_digits" by (simp add: int_max_str_digits_def)
  with assms have "length (str_digits \<bar>f\<bar>) \<le> int_max_str_digits"
    by (intro length_str_digits_le)
  then show ?thesis by (simp add: str_int_def)
qed


subsection \<open>The encoder on the last ten characters\<close>

lemma hex_value_less: "hex_value c = Some v \<Longrightarrow> v < 16"
  by (auto simp: hex_value_def Let_def split: if_splits)

lemma py_int_16_literal:
  "py_int_16 [CHR ''0'', CHR ''x'', x, y] =
     (if hex_value x \<noteq> None \<and> hex_value y \<noteq> None
      then Inr (int (16 * the (hex_value x) + the (hex_value y)))
      else Inl ValueError)"
  by (simp add: py_int_16_def)

lemma literal_in_range:
  assumes "hex_value x \<noteq> None" and "hex_value y \<noteq> None"
  shows "int (16 * the (hex_value x) + the (hex_value y)) < 256"
proof -
  from assms obtain u v where "hex_value x = Some u" "hex_value y = Some v" by auto
  then show ?thesis using hex_value_less [of x u] hex_value_less [of y v] by simp
qed

lemma encode_frequency_tail:
  assumes "str_int f = Inr (decimal_repr f)"
    and "rjust (decimal_repr f) 10 CHR ''0'' = pre @ [c9, c8, c7, c6, c5, c4, c3, c2, c1, c0]"
  shows "encode_frequency f =
     (if \<forall>c \<in> set [c9, c8, c7, c6, c5, c4, c3, c2, c1, c0]. hex_value c \<noteq> None
      then Inr [word_of_int (int (16 * the (hex_value c1) + the (hex_value c0))),
                word_of_int (int (16 * the (hex_value c3) + the (hex_value c2))),
                word_of_int (int (16 * the (hex_value c5) + the (hex_value c4))),
                word_of_int (int (16 * the (hex_value c7) + the (hex_value c6))),
                word_of_int (int (16 * the (hex_value c9) + the (hex_value c8)))]
      else Inl ValueError)"
proof -
  have inv: "rev (rjust (decimal_repr f) 10 CHR ''0'')
      = [c0, c1, c2, c3, c4, c5, c6, c7, c8, c9] @ rev pre"
    by (simp add: assms(2))
  have lits: "sequence_err
       [hex_literal ([c0, c1, c2, c3, c4, c5, c6, c7, c8, c9] @ rev pre) 1 0,
        hex_literal ([c0, c1, c2, c3, c4, c5, c6, c7, c8, c9] @ rev pre) 3 2,
        hex_literal ([c0, c1, c2, c3, c4, c5, c6, c7, c8, c9] @ rev pre) 5 4,
        hex_literal ([c0, c1, c2, c3, c4, c5, c6, c7, c8, c9] @ rev pre) 7 6,
        hex_literal ([c0, c1, c2, c3, c4, c5, c6, c7, c8, c9] @ rev pre) 9 8]
     = Inr [''0x'' @ [c1, c0], ''0x'' @ [c3, c2], ''0x'' @ [c5, c4],
            ''0x'' @ [c7, c6], ''0x'' @ [c9, c8]]"
    by (simp add: hex_literal_def char_at_def)
  show ?thesis
  proof (cases "\<forall>c \<in> set [c9, c8, c7, c6, c5, c4, c3, c2, c1, c0]. hex_value c \<noteq> None")
    case True
    then have ok: "hex_value c0 \<noteq> None" "hex_value c1 \<noteq> None" "hex_value c2 \<noteq> None"
      "hex_value c3 \<noteq> None" "hex_value c4 \<noteq> None" "hex_value c5 \<noteq> None"
      "hex_value c6 \<noteq> None" "hex_value c7 \<noteq> None" "hex_value c8 \<noteq> None"
      "hex_value c9 \<noteq> None" by simp_all
    show ?thesis
      unfolding encode_frequency_def assms(1) sum.case Let_def inv lits
      using True ok literal_in_range [OF ok(2) ok(1)] literal_in_range [OF ok(4) ok(3)]
        literal_in_range [OF ok(6) ok(5)] literal_in_range [OF ok(8) ok(7)]
        literal_in_range [OF ok(10) ok(9)]
      by (simp add: py_int_16_literal bytes_ctor_def)
  next
    case False
    then show ?thesis
      unfolding encode_frequency_def assms(1) sum.case Let_def inv lits
      by (auto simp add: py_int_16_literal)
  qed
qed

lemma ten_elements:
  "length t = 10 \<Longrightarrow> \<exists>c9 c8 c7 c6 c5 c4 c3 c2 c1 c0. t = [c9, c8, c7, c6, c5, c4, c3, c2, c1, c0]"
  by (auto simp: numeral_eq_Suc length_Suc_conv)

lemma is_decimal_hex: "is_decimal c \<Longrightarrow> hex_value c \<noteq> None"
  by (simp add: hex_value_decimal)





lemma is_decimal_zero: "is_decimal CHR ''0''"
  by (simp add: is_decimal_def)

subsection \<open>Claims about \<open>_encode_frequency\<close>\<close>




subsection \<open>Decoding what the encoder built\<close>

lemma format_02X_literal:
  assumes "is_decimal x" and "is_decimal y"
  shows "format_02X (of_nat (16 * the (hex_value x) + the (hex_value y))) = [x, y]"
proof -
  let ?a = "of_char x - 48 :: nat" and ?b = "of_char y - 48 :: nat"
  from assms have a: "?a < 10" and b: "?b < 10" by (auto simp: is_decimal_def)
  have hx: "hex_value x = Some ?a" and hy: "hex_value y = Some ?b"
    using assms by (simp_all add: hex_value_decimal)
  have "16 * ?a + ?b < 256" using a b by simp
  then have u: "unat (of_nat (16 * ?a + ?b) :: byte) = 16 * ?a + ?b"
    by (simp add: unat_of_nat del: of_nat_add of_nat_mult)
  have d: "(16 * ?a + ?b) div 16 = ?a" and m: "(16 * ?a + ?b) mod 16 = ?b"
    using b by simp_all
  show ?thesis
    unfolding format_02X_def hx hy option.sel u d m
    using assms by (simp add: digit_char_of_char)
qed

lemma frequency_round_trip:
  assumes "0 \<le> f" and "f < 10 ^ 10"
  shows "\<exists>bs. encode_frequency f = Inr bs \<and> decode_frequency bs = Inr f"
proof -
  let ?ds = "str_digits f"
  let ?p = "rjust (decimal_repr f) 10 CHR ''0''"
  have "\<bar>f\<bar> < 10 ^ 10" using assms by simp
  then have "\<bar>f\<bar> < 10 ^ int_max_str_digits"
    by (rule below_limit) (simp add: int_max_str_digits_def)
  then have ok: "str_int f = Inr (decimal_repr f)" by (rule str_int_ok)
  have len: "length ?ds \<le> 10" using assms(2) by (intro length_str_digits_le) simp_all
  have p: "?p = replicate (10 - length ?ds) CHR ''0'' @ ?ds"
    using assms(1) by (simp add: rjust_def decimal_repr_def)
  have "length ?p = 10" unfolding p using len by simp
  from ten_elements [OF this] obtain c9 c8 c7 c6 c5 c4 c3 c2 c1 c0
    where t: "?p = [c9, c8, c7, c6, c5, c4, c3, c2, c1, c0]" by blast
  have "list_all is_decimal ?p"
    unfolding p using str_digits_decimal [of f]
    by (auto simp: list_all_iff is_decimal_zero)
  then have dec: "is_decimal c0" "is_decimal c1" "is_decimal c2" "is_decimal c3" "is_decimal c4"
    "is_decimal c5" "is_decimal c6" "is_decimal c7" "is_decimal c8" "is_decimal c9"
    unfolding t by simp_all
  have val: "decimal_value ?p = f"
    unfolding p by (simp add: decimal_value_zeros decimal_value_str_digits assms(1))
  let ?bs = "[word_of_int (int (16 * the (hex_value c1) + the (hex_value c0))),
              word_of_int (int (16 * the (hex_value c3) + the (hex_value c2))),
              word_of_int (int (16 * the (hex_value c5) + the (hex_value c4))),
              word_of_int (int (16 * the (hex_value c7) + the (hex_value c6))),
              word_of_int (int (16 * the (hex_value c9) + the (hex_value c8)))] :: bytes"
  have t': "?p = [] @ [c9, c8, c7, c6, c5, c4, c3, c2, c1, c0]" using t by simp
  have enc: "encode_frequency f = Inr ?bs"
    using encode_frequency_tail [OF ok t'] dec by (simp add: hex_value_decimal)
  have "concat (map format_02X (rev ?bs)) = [c9, c8, c7, c6, c5, c4, c3, c2, c1, c0]"
    using dec by (simp add: format_02X_literal del: of_nat_add of_nat_mult)
  then have "decode_frequency ?bs = py_int ?p"
    unfolding decode_frequency_def Let_def t by (simp only:)
  also have "\<dots> = Inr f"
    using \<open>list_all is_decimal ?p\<close> val t by (simp add: py_int_def int_max_str_digits_def)
  finally show ?thesis using enc by blast
qed

text \<open>
  C6. For every integer frequency from 10,000 to 74,000,000 the encoder returns five
  bytes and the decoder, applied to them, returns the frequency:
  \<open>_decode_frequency(_encode_frequency(f)) == f\<close>. (The lemma above shows it for
  every \<open>f\<close> from 0 to \<open>10^10 - 1\<close>.)
\<close>

theorem decode_encode_frequency:
  assumes "10000 \<le> f" and "f \<le> 74000000"
  shows "\<exists>bs. encode_frequency f = Inr bs \<and> decode_frequency bs = Inr f"
  using assms by (intro frequency_round_trip) simp_all

text \<open>The hypotheses of C6 hold at 14,074,000 Hz.\<close>

theorem decode_encode_frequency_witness:
  "(10000 :: int) \<le> 14074000 \<and> (14074000 :: int) \<le> 74000000
   \<and> (\<exists>bs. encode_frequency 14074000 = Inr bs \<and> decode_frequency bs = Inr 14074000)"
proof -
  have h1: "(10000 :: int) \<le> 14074000" and h2: "(14074000 :: int) \<le> 74000000" by simp_all
  from decode_encode_frequency [OF h1 h2] h1 h2 show ?thesis by simp
qed

end
